theory Spec2Isabelle
  imports Complex_Main "HOL-Library.AList" "HOL-Library.Sublist" "HOL-Library.Log_Nat"
begin

section \<open>Python strings\<close>

text \<open>
  A Python \<open>str\<close> is modelled as a \<^typ>\<open>string\<close>, one \<^typ>\<open>char\<close> per code point, so
  the model covers the code points below 256. The emoji and the bullet in the literals
  of the chat responder lie outside that range and are written as their UTF-8 bytes.
\<close>

text \<open>\<open>str.isspace\<close> on one character; the same class is the \<open>\s\<close> of \<open>re\<close>.\<close>

definition isspace_chr :: "char \<Rightarrow> bool" where
  "isspace_chr c = (let n = (of_char c :: nat) in
     (9 \<le> n \<and> n \<le> 13) \<or> (28 \<le> n \<and> n \<le> 32) \<or> n = 133 \<or> n = 160)"

text \<open>\<open>str.isalnum\<close> on one character: letters, digits and the numeric characters.\<close>

definition isalnum_chr :: "char \<Rightarrow> bool" where
  "isalnum_chr c = (let n = (of_char c :: nat) in
     (48 \<le> n \<and> n \<le> 57) \<or> (65 \<le> n \<and> n \<le> 90) \<or> (97 \<le> n \<and> n \<le> 122) \<or>
     n = 170 \<or> n = 178 \<or> n = 179 \<or> n = 181 \<or> n = 185 \<or> n = 186 \<or>
     (188 \<le> n \<and> n \<le> 190) \<or> (192 \<le> n \<and> n \<le> 214) \<or> (216 \<le> n \<and> n \<le> 246) \<or>
     (248 \<le> n \<and> n \<le> 255))"

definition lower_chr :: "char \<Rightarrow> char" where
  "lower_chr c = (let n = (of_char c :: nat) in
     if (65 \<le> n \<and> n \<le> 90) \<or> (192 \<le> n \<and> n \<le> 214) \<or> (216 \<le> n \<and> n \<le> 222)
     then char_of (n + 32) else c)"

text \<open>\<open>s.lower()\<close>, \<open>s.isalnum()\<close> (false on the empty string) and \<open>s.strip()\<close>.\<close>

definition lower :: "string \<Rightarrow> string" where
  "lower s = map lower_chr s"

definition isalnum :: "string \<Rightarrow> bool" where
  "isalnum s = (s \<noteq> [] \<and> list_all isalnum_chr s)"

definition strip :: "string \<Rightarrow> string" where
  "strip s = rev (dropWhile isspace_chr (rev (dropWhile isspace_chr s)))"

text \<open>
  \<open>re.sub(r"\s+", " ", text)\<close>: every maximal run of whitespace becomes one space. The
  flag says that the previous character was whitespace, so that the run is already
  replaced.
\<close>

fun sub_ws :: "bool \<Rightarrow> string \<Rightarrow> string" where
  "sub_ws prev [] = []"
| "sub_ws prev (c # cs) =
     (if isspace_chr c then (if prev then sub_ws True cs else CHR '' '' # sub_ws True cs)
      else c # sub_ws False cs)"

text \<open>\<open>sep.join(xs)\<close>, and \<open>" ".join(xs)\<close>.\<close>

fun sep_join :: "string \<Rightarrow> string list \<Rightarrow> string" where
  "sep_join sep [] = []"
| "sep_join sep [x] = x"
| "sep_join sep (x # y # ys) = x @ sep @ sep_join sep (y # ys)"

abbreviation join :: "string list \<Rightarrow> string" where
  "join xs \<equiv> sep_join '' '' xs"

text \<open>\<open>s.split()\<close>: the maximal runs of characters that are not whitespace.\<close>

fun split_ws :: "string \<Rightarrow> string \<Rightarrow> string list" where
  "split_ws acc [] = (if acc = [] then [] else [rev acc])"
| "split_ws acc (c # cs) =
     (if isspace_chr c then (if acc = [] then [] else [rev acc]) @ split_ws [] cs
      else split_ws (c # acc) cs)"

definition py_split :: "string \<Rightarrow> string list" where
  "py_split s = split_ws [] s"

text \<open>\<open>s.split("\n\n")\<close>: the pieces between the blank lines, empty pieces included.\<close>

fun split_blank :: "string \<Rightarrow> string \<Rightarrow> string list" where
  "split_blank acc [] = [rev acc]"
| "split_blank acc [c] = [rev (c # acc)]"
| "split_blank acc (c # d # cs) =
     (if c = CHR 0x0A \<and> d = CHR 0x0A then rev acc # split_blank [] cs
      else split_blank (c # acc) (d # cs))"

text \<open>\<open>str(n)\<close> and the format \<open>{n:,}\<close> for a natural number.\<close>

definition digit_chr :: "nat \<Rightarrow> char" where
  "digit_chr d = char_of (48 + d)"

fun str_nat :: "nat \<Rightarrow> string" where
  "str_nat n = (if n < 10 then [digit_chr n] else str_nat (n div 10) @ [digit_chr (n mod 10)])"

fun fmt_comma :: "nat \<Rightarrow> string" where
  "fmt_comma n =
     (if n < 1000 then str_nat n
      else fmt_comma (n div 1000) @ '','' @
           [digit_chr (n mod 1000 div 100), digit_chr (n mod 100 div 10), digit_chr (n mod 10)])"

section \<open>Python numbers\<close>

text \<open>
  A Python float is an IEEE 754 double. A finite double is modelled by the real number it
  denotes, and an operation on doubles by the exact operation followed by the rounding
  to the nearest double, ties to the even significand. \<open>round_half_even\<close> rounds a real
  to the nearest integer in that way.
\<close>

definition round_half_even :: "real \<Rightarrow> int" where
  "round_half_even q =
     (let f = \<lfloor>q\<rfloor>; d = q - of_int f
      in if d < 1 / 2 then f else if 1 / 2 < d then f + 1 else if even f then f else f + 1)"

text \<open>
  The binary exponent of a positive real \<open>x\<close>, the \<open>e\<close> with \<open>2^e \<le> x < 2^(e+1)\<close>, from
  the bit length of an integer; and the distance between the doubles around \<open>x\<close>: 53
  bits of significand, and the fixed distance \<open>2^-1074\<close> below \<open>2^-1022\<close>.
\<close>

definition expo :: "real \<Rightarrow> int" where
  "expo x = (if 1 \<le> x then bitlen \<lfloor>x\<rfloor> - 1 else - bitlen (\<lceil>1 / x\<rceil> - 1))"

definition ulp :: "real \<Rightarrow> real" where
  "ulp x = 2 powi (max (expo x) (- 1022) - 52)"

text \<open>
  The double nearest to a real. A result of \<open>2^1024\<close> or more stands for an overflow,
  which the operations below test where Python raises on it.
\<close>

definition round_double :: "real \<Rightarrow> real" where
  "round_double x =
     (if x = 0 then 0
      else if 0 < x then of_int (round_half_even (x / ulp x)) * ulp x
      else - (of_int (round_half_even (- x / ulp (- x))) * ulp (- x)))"

text \<open>The values of the type \<open>float\<close>.\<close>

datatype pyfloat = Finite real | PosInf | NegInf | NaN

text \<open>\<open>int(x)\<close> on a finite float truncates towards zero.\<close>

definition py_int :: "real \<Rightarrow> int" where
  "py_int x = (if 0 \<le> x then \<lfloor>x\<rfloor> else \<lceil>x\<rceil>)"

text \<open>
  \<open>n * x\<close> for the length \<open>n\<close> of a list and a finite float \<open>x\<close>: the int is converted to
  the nearest double (a list has fewer than \<open>2^63\<close> elements, so this conversion cannot
  overflow) and the product of the two doubles is rounded.
\<close>

definition int_times_float :: "nat \<Rightarrow> real \<Rightarrow> real" where
  "int_times_float n x = round_double (round_double (real n) * x)"

section \<open>The tokenizer service\<close>

text \<open>
  \<open>sent_tokenize\<close>, \<open>word_tokenize\<close> and the English stopword list come from the NLTK
  library, which is not part of the repository: they are parameters of every function
  that uses them.
\<close>

record nltk =
  sent_tokenize :: "string \<Rightarrow> string list"
  word_tokenize :: "string \<Rightarrow> string list"
  STOP_WORDS :: "string set"

section \<open>summarizer.py\<close>

datatype py_error = TypeError | ValueError | OverflowError | ZeroDivisionError

text \<open>
  The values a caller can pass as \<open>ratio\<close>: a float, an int, or \<open>None\<close> as the
  non-numeric value. \<open>float(ratio)\<close> returns a float as it is, converts an int to the
  nearest double and raises \<open>OverflowError\<close> when that is beyond the largest double, and
  raises \<open>TypeError\<close> on \<open>None\<close>.
\<close>

datatype pyvalue = PyFloat pyfloat | PyInt int | PyNone

fun py_float :: "pyvalue \<Rightarrow> py_error + pyfloat" where
  "py_float (PyFloat x) = Inr x"
| "py_float (PyInt i) =
     (if 2 ^ 1024 \<le> \<bar>round_double (of_int i)\<bar> then Inl OverflowError
      else Inr (Finite (round_double (of_int i))))"
| "py_float PyNone = Inl TypeError"

text \<open>A float literal of the program, such as \<open>0.3\<close>, is the double nearest to it.\<close>

abbreviation literal :: "real \<Rightarrow> pyvalue" where
  "literal x \<equiv> PyFloat (Finite (round_double x))"

text \<open>\<open>_clean_text\<close>.\<close>

definition clean_text :: "string \<Rightarrow> string" where
  "clean_text text = strip (sub_ws False text)"

text \<open>
  \<open>max(0.1, min(0.9, x))\<close>, line 26, with the doubles nearest to 0.1 and 0.9. Python's
  \<open>min\<close> and \<open>max\<close> keep their first argument unless the second one compares smaller or
  larger, and every comparison with \<open>nan\<close> is false: \<open>min(0.9, nan)\<close> is 0.9. The result
  is always finite.
\<close>

definition clamp_ratio :: "pyfloat \<Rightarrow> real" where
  "clamp_ratio x =
     (case x of
        Finite r \<Rightarrow> max (round_double 0.1) (min (round_double 0.9) r)
      | PosInf \<Rightarrow> round_double 0.9
      | NaN \<Rightarrow> round_double 0.9
      | NegInf \<Rightarrow> round_double 0.1)"

text \<open>
  A \<open>dict\<close> is an association list in insertion order: \<^const>\<open>AList.update\<close> overwrites
  the value of a key in place and appends a new key at the end, as a Python dict does.
  \<open>freq[w] += 1\<close> on the \<open>defaultdict(int)\<close>:
\<close>

definition incr :: "(string \<times> nat) list \<Rightarrow> string \<Rightarrow> (string \<times> nat) list" where
  "incr freq w = AList.update w ((case map_of freq w of None \<Rightarrow> 0 | Some c \<Rightarrow> c) + 1) freq"

text \<open>The loop of lines 32 to 35.\<close>

definition word_freq :: "nltk \<Rightarrow> string list \<Rightarrow> (string \<times> nat) list" where
  "word_freq env words =
     fold (\<lambda>w freq. if isalnum w \<and> w \<notin> STOP_WORDS env then incr freq w else freq) words []"

text \<open>
  \<open>max(freq.values())\<close>, line 39, raises \<open>ValueError\<close> on an empty sequence, and the
  division \<open>freq[w] / maxf\<close> of line 41 raises \<open>ZeroDivisionError\<close> when \<open>maxf\<close> is 0.
\<close>

definition py_max :: "nat list \<Rightarrow> py_error + nat" where
  "py_max xs = (if xs = [] then Inl ValueError else Inr (Max (set xs)))"

text \<open>
  The table that lines 39 to 41 leave when they do not raise: every count is divided by
  the largest one. The frequencies and the scores, which only rank the sentences, are
  kept as exact quotients.
\<close>

definition normalize_freq :: "(string \<times> nat) list \<Rightarrow> (string \<times> real) list" where
  "normalize_freq freq =
     (let maxf = Max (set (map snd freq)) in map (\<lambda>(w, c). (w, real c / real maxf)) freq)"

text \<open>The inner loop of lines 45 to 51, on the pair \<open>(score, count)\<close>.\<close>

definition sentence_score :: "(string \<times> real) list \<Rightarrow> string list \<Rightarrow> real \<times> nat" where
  "sentence_score freq s_words =
     fold (\<lambda>w (score, count).
             if isalnum w
             then (case map_of freq w of Some v \<Rightarrow> (score + v, count + 1)
                                        | None \<Rightarrow> (score, count + 1))
             else (score, count))
          s_words (0, 0)"

text \<open>The loop of lines 43 to 53 that fills the dict \<open>sent_scores\<close>.\<close>

definition score_sentences ::
  "nltk \<Rightarrow> (string \<times> real) list \<Rightarrow> string list \<Rightarrow> (string \<times> real) list" where
  "score_sentences env freq sentences =
     fold (\<lambda>s sent_scores.
             case sentence_score freq (word_tokenize env (lower s)) of
               (score, count) \<Rightarrow>
                 if count > 0 then AList.update s (score / real count) sent_scores
                 else sent_scores)
          sentences []"

text \<open>
  \<open>sorted(sent_scores.items(), key=lambda x: x[1], reverse=True)\<close>: Python's sort is
  stable, also with \<open>reverse=True\<close>, and so is \<^const>\<open>sort_key\<close>.
\<close>

definition ranked :: "(string \<times> real) list \<Rightarrow> (string \<times> real) list" where
  "ranked sent_scores = sort_key (\<lambda>x. - snd x) sent_scores"

text \<open>
  \<open>max(1, int(len(sentences) * ratio))\<close>, lines 37 and 54: the product of an int and a
  float is a double. The ratio is the clamped one, so the product is finite, at most the
  length, and \<open>int\<close> does not raise on it.
\<close>

definition select_n :: "string list \<Rightarrow> real \<Rightarrow> nat" where
  "select_n sentences ratio = nat (max 1 (py_int (int_times_float (length sentences) ratio)))"

text \<open>
  Lines 42 to 59: the list \<open>summary_sentences\<close> from the table of counts. The division
  \<open>score / count\<close> of line 53 stands under the test \<open>count > 0\<close> and cannot raise.
\<close>

definition summary_sentences ::
  "nltk \<Rightarrow> (string \<times> nat) list \<Rightarrow> string list \<Rightarrow> real \<Rightarrow> string list" where
  "summary_sentences env freq sentences ratio =
     (let sent_scores = score_sentences env (normalize_freq freq) sentences;
          top_sentences = set (map fst (take (select_n sentences ratio) (ranked sent_scores)));
          chosen = filter (\<lambda>s. s \<in> top_sentences) sentences
      in if chosen = [] then take (select_n sentences ratio) sentences else chosen)"

definition summarize_text :: "nltk \<Rightarrow> string \<Rightarrow> pyvalue \<Rightarrow> py_error + string" where
  "summarize_text env text ratio =
     (if text = [] \<or> strip text = [] then Inr []
      else case py_float ratio of
        Inl e \<Rightarrow> Inl e
      | Inr x \<Rightarrow>
          (let ratio = clamp_ratio x;
               text = clean_text text;
               sentences = sent_tokenize env text
           in if length sentences \<le> 1 then Inr text
              else let freq = word_freq env (word_tokenize env (lower text))
                   in if freq = [] then Inr (join (take (select_n sentences ratio) sentences))
                      else case py_max (map snd freq) of
                             Inl e \<Rightarrow> Inl e
                           | Inr maxf \<Rightarrow>
                               if maxf = 0 then Inl ZeroDivisionError
                               else Inr (join (summary_sentences env freq sentences ratio))))"

section \<open>chatbot.py\<close>

text \<open>\<open>\w\<close> of \<open>re\<close>: an alphanumeric character or the underscore.\<close>

definition isword_chr :: "char \<Rightarrow> bool" where
  "isword_chr c = (isalnum_chr c \<or> c = CHR ''_'')"

definition normalize_text :: "string \<Rightarrow> string" where
  "normalize_text text = filter (\<lambda>c. isword_chr c \<or> isspace_chr c) (strip (lower text))"

text \<open>
  \<open>sorted(freq.items(), key=lambda x: x[1], reverse=True)\<close> on a table of counts (the
  sort is stable), then the first \<open>top_n\<close> keys.
\<close>

definition extract_keywords :: "nltk \<Rightarrow> string \<Rightarrow> nat \<Rightarrow> string list" where
  "extract_keywords env text top_n =
     (let words = word_tokenize env (lower text);
          freq = fold (\<lambda>w freq. if isalnum w \<and> w \<notin> STOP_WORDS env \<and> length w > 2
                                then incr freq w else freq) words [];
          items = sort_key (\<lambda>x. - int (snd x)) freq
      in map fst (take top_n items))"

text \<open>The dict \<open>patterns\<close> of \<open>detect_intent\<close>, in its insertion order.\<close>

definition patterns :: "(string \<times> string list list) list" where
  "patterns =
     [(''what_about'', [[''what'', ''about''], [''what'', ''is'', ''about''], [''tell'', ''me'', ''about'']]),
      (''key_points'', [[''key'', ''point''], [''main'', ''point''], [''important'', ''point''],
                        [''key'', ''idea''], [''what'', ''are'', ''key'']]),
      (''make_shorter'', [[''shorter''], [''shorten''], [''condense''], [''brief'']]),
      (''explain'', [[''explain''], [''elaborate''], [''describe''], [''clarify'']]),
      (''summary_length'', [[''how'', ''long''], [''length''], [''word'', ''count''],
                            [''character'', ''count''], [''stats'']])]"

text \<open>
  The inner loop of \<open>detect_intent\<close> over the patterns of one intent: it returns at the
  first pattern whose tokens all occur in \<open>tokens\<close>.
\<close>

fun scan_pats :: "string list \<Rightarrow> string \<Rightarrow> string list list \<Rightarrow> string option" where
  "scan_pats tokens intent [] = None"
| "scan_pats tokens intent (pat # pats) =
     (if list_all (\<lambda>p. p \<in> set tokens) pat then Some intent else scan_pats tokens intent pats)"

text \<open>The outer loop over the intents, and the final \<open>return "general"\<close>.\<close>

fun scan_intents :: "string list \<Rightarrow> (string \<times> string list list) list \<Rightarrow> string" where
  "scan_intents tokens [] = ''general''"
| "scan_intents tokens ((intent, pats) # rest) =
     (case scan_pats tokens intent pats of
        Some found \<Rightarrow> found
      | None \<Rightarrow> scan_intents tokens rest)"

definition detect_intent :: "string \<Rightarrow> string" where
  "detect_intent question = (let q = normalize_text question; tokens = py_split q
                             in scan_intents tokens patterns)"

text \<open>\<open>k in ls\<close> on strings is the test for a contiguous substring, \<^const>\<open>sublist\<close>.\<close>

definition get_key_points :: "nltk \<Rightarrow> string \<Rightarrow> nat \<Rightarrow> string list" where
  "get_key_points env summary max_points =
     (let sents = sent_tokenize env summary
      in if sents = [] then []
         else let keywords = extract_keywords env summary 10;
                  scored = map (\<lambda>s. (strip s, length (filter (\<lambda>k. sublist k (lower s)) keywords))) sents;
                  scored = sort_key (\<lambda>x. - int (snd x)) scored;
                  key_points = map fst (filter (\<lambda>x. snd x > 0) (take max_points scored))
              in if key_points = [] then map strip (take max_points sents) else key_points)"

text \<open>
  \<open>make_shorter\<close>, with a finite float as ratio: the \<open>except\<close> branch runs when
  \<open>summarize_text\<close> raises, which it does on no float.
\<close>

definition make_shorter :: "nltk \<Rightarrow> string \<Rightarrow> real \<Rightarrow> string" where
  "make_shorter env summary ratio =
     (case summarize_text env summary (PyFloat (Finite ratio)) of
        Inr new \<Rightarrow> (if new \<noteq> [] then new else summary)
      | Inl e \<Rightarrow>
          (let sents = sent_tokenize env summary;
               n = nat (max 1 (py_int (int_times_float (length sents) ratio)))
           in join (take n sents)))"

definition explain_summary :: "nltk \<Rightarrow> string \<Rightarrow> string" where
  "explain_summary env summary =
     (let sents = sent_tokenize env summary;
          word_count = length (py_split summary);
          char_count = length summary;
          keywords = extract_keywords env summary 5;
          explanation = ''This summary contains '' @ str_nat (length sents) @
            '' sentence(s), approximately '' @ str_nat word_count @ '' words ('' @
            str_nat char_count @ '' characters). ''
      in if keywords \<noteq> [] then explanation @ ''Key topics: '' @ sep_join '', '' keywords @ ''.''
         else explanation)"

text \<open>The paragraph count of \<open>get_summary_stats\<close>, line 96.\<close>

definition paragraph_count :: "string \<Rightarrow> nat" where
  "paragraph_count summary = length (filter (\<lambda>p. strip p \<noteq> []) (split_blank [] summary))"

definition bullet :: string where
  "bullet = [CHR 0x0A, CHR 0xE2, CHR 0x80, CHR 0xA2]"

definition get_summary_stats :: "nltk \<Rightarrow> string \<Rightarrow> string" where
  "get_summary_stats env summary =
     (let word_count = length (py_split summary);
          char_count = length summary;
          char_count_no_spaces = length (filter (\<lambda>c. c \<noteq> CHR '' '') summary);
          sentence_count = length (sent_tokenize env summary)
      in [CHR 0xF0, CHR 0x9F, CHR 0x93, CHR 0x8A] @ '' Summary Statistics:'' @ [CHR 0x0A] @
         bullet @ '' Words: '' @ fmt_comma word_count @
         bullet @ '' Characters: '' @ fmt_comma char_count @
         bullet @ '' Characters (no spaces): '' @ fmt_comma char_count_no_spaces @
         bullet @ '' Sentences: '' @ str_nat sentence_count @
         bullet @ '' Paragraphs: '' @ str_nat (paragraph_count summary))"

text \<open>The fixed answers of \<open>chat_with_summary\<close>; \<open>apos\<close> is the apostrophe.\<close>

definition apos :: string where
  "apos = [CHR 0x27]"

definition no_summary_msg :: string where
  "no_summary_msg = ''I don'' @ apos @ ''t have a summary to discuss yet. Please generate a summary first!''"

definition no_question_msg :: string where
  "no_question_msg = ''Please ask a question about the summary!''"

definition no_points_msg :: string where
  "no_points_msg = ''I couldn'' @ apos @ ''t extract clear key points.''"

definition no_answer_msg :: string where
  "no_answer_msg = ''I didn'' @ apos @ ''t find a direct answer in the summary. Try: '' @
     apos @ ''What is this about?'' @ apos @ '', '' @ apos @ ''Give key points'' @ apos @ '', '' @
     apos @ ''Make it shorter'' @ apos @ '', or '' @ apos @ ''How long is this summary?'' @ apos"

definition shorter_header :: string where
  "shorter_header = [CHR 0xF0, CHR 0x9F, CHR 0x93, CHR 0x9D] @ '' Shorter version:'' @ [CHR 0x0A, CHR 0x0A]"

text \<open>The loop of the \<open>key_points\<close> branch, \<open>out += f"{i}. {p}\n"\<close>, from \<open>i\<close> on.\<close>

fun numbered :: "nat \<Rightarrow> string list \<Rightarrow> string" where
  "numbered i [] = []"
| "numbered i (p # ps) = str_nat i @ ''. '' @ p @ [CHR 0x0A] @ numbered (i + 1) ps"

text \<open>
  \<open>chat_with_summary\<close>. No operation of the \<open>try\<close> block raises in this model (the
  tokenizers are total and \<open>make_shorter\<close> passes the float 0.5, which is a double), so
  the \<open>except\<close> branch has no counterpart.
\<close>

definition chat_with_summary :: "nltk \<Rightarrow> string \<Rightarrow> string \<Rightarrow> string" where
  "chat_with_summary env question summary =
     (if summary = [] \<or> strip summary = [] then no_summary_msg
      else if question = [] \<or> strip question = [] then no_question_msg
      else let intent = detect_intent question in
        if intent = ''what_about'' then
          (let keywords = extract_keywords env summary 5;
               first = (case sent_tokenize env summary of s # _ \<Rightarrow> s | [] \<Rightarrow> take 200 summary)
           in ''This summary is about: '' @ sep_join '', '' keywords @ ''. For example: '' @ first)
        else if intent = ''key_points'' then
          (let points = get_key_points env summary 5
           in if points = [] then no_points_msg
              else strip ([CHR 0xF0, CHR 0x9F, CHR 0x94, CHR 0x91] @ '' Key Points:'' @ [CHR 0x0A] @
                          numbered 1 points))
        else if intent = ''make_shorter'' then
          (let short = make_shorter env summary (1 / 2) in shorter_header @ short)
        else if intent = ''explain'' then
          [CHR 0xF0, CHR 0x9F, CHR 0x92, CHR 0xA1] @ '' Explanation:'' @ [CHR 0x0A, CHR 0x0A] @
          explain_summary env summary
        else if intent = ''summary_length'' then get_summary_stats env summary
        else
          (let qwords = filter (\<lambda>w. isalnum w \<and> w \<notin> STOP_WORDS env)
                               (word_tokenize env (lower question));
               sents = sent_tokenize env summary;
               relevant = filter (\<lambda>s. list_ex (\<lambda>q. sublist q (lower s)) qwords) sents
           in if relevant \<noteq> []
              then ''Based on your question, here are relevant sentences:'' @ [CHR 0x0A, CHR 0x0A] @
                   join (take 3 relevant)
              else no_answer_msg))"

section \<open>Notions used by the properties\<close>

text \<open>No two whitespace characters stand next to each other.\<close>

fun no_ws_run :: "string \<Rightarrow> bool" where
  "no_ws_run [] = True"
| "no_ws_run [c] = True"
| "no_ws_run (c # d # cs) = (\<not> (isspace_chr c \<and> isspace_chr d) \<and> no_ws_run (d # cs))"

text \<open>
  A string is single-spaced when its only whitespace characters are single spaces
  between other characters: no whitespace run of two or more, none at either end.
\<close>

definition single_spaced :: "string \<Rightarrow> bool" where
  "single_spaced s =
     (no_ws_run s \<and> list_all (\<lambda>c. isspace_chr c \<longrightarrow> c = CHR '' '') s \<and>
      (s \<noteq> [] \<longrightarrow> \<not> isspace_chr (hd s) \<and> \<not> isspace_chr (last s)))"




text \<open>
  The frequency table of the specification: the counted words are the alphanumeric
  tokens that are not stopwords, and the normalised frequency of a counted word is its
  number of occurrences divided by the largest number of occurrences.
\<close>

definition counted_words :: "nltk \<Rightarrow> string list \<Rightarrow> string list" where
  "counted_words env words = filter (\<lambda>w. isalnum w \<and> w \<notin> STOP_WORDS env) words"


text \<open>
  The intent classifier in the words of its specification: the intents are tried in the
  order of \<^const>\<open>patterns\<close>, a pattern matches when each of its tokens is among the
  tokens of the normalised question, the first intent with a matching pattern is the
  answer, and \<open>general\<close> is the answer when there is none.
\<close>

definition classify_spec :: "string \<Rightarrow> string" where
  "classify_spec question =
     (let tokens = py_split (normalize_text question)
      in case find (\<lambda>(intent, pats). list_ex (\<lambda>pat. set pat \<subseteq> set tokens) pats) patterns of
           Some (intent, pats) \<Rightarrow> intent
         | None \<Rightarrow> ''general'')"

section \<open>A tokenizer service for the examples\<close>

text \<open>
  The examples need a concrete tokenizer service. This one ends a sentence at a full
  stop, an exclamation mark or a question mark that a space follows; its words are the
  runs of alphanumeric characters, and every other character that is not a space is a
  token of its own. On the plain texts of the examples below this is what NLTK
  returns. The stopwords are those of NLTK's English list that have no
  apostrophe (a token with an apostrophe is not alphanumeric and is never looked up).
\<close>

fun split_sentences :: "string \<Rightarrow> string \<Rightarrow> string list" where
  "split_sentences acc [] = (if acc = [] then [] else [rev acc])"
| "split_sentences acc [c] = [rev (c # acc)]"
| "split_sentences acc (c # d # cs) =
     (if c \<in> set ''.!?'' \<and> d = CHR '' '' then rev (c # acc) # split_sentences [] cs
      else split_sentences (c # acc) (d # cs))"

fun split_words :: "string \<Rightarrow> string \<Rightarrow> string list" where
  "split_words acc [] = (if acc = [] then [] else [rev acc])"
| "split_words acc (c # cs) =
     (if c = CHR '' '' then (if acc = [] then [] else [rev acc]) @ split_words [] cs
      else if isalnum_chr c then split_words (c # acc) cs
      else (if acc = [] then [] else [rev acc]) @ [c] # split_words [] cs)"

definition english_stopwords :: "string list" where
  "english_stopwords =
     [''i'', ''me'', ''my'', ''myself'', ''we'', ''our'', ''ours'', ''ourselves'', ''you'', ''your'',
      ''yours'', ''yourself'', ''yourselves'', ''he'', ''him'', ''his'', ''himself'', ''she'', ''her'',
      ''hers'', ''herself'', ''it'', ''its'', ''itself'', ''they'', ''them'', ''their'', ''theirs'',
      ''themselves'', ''what'', ''which'', ''who'', ''whom'', ''this'', ''that'', ''these'', ''those'',
      ''am'', ''is'', ''are'', ''was'', ''were'', ''be'', ''been'', ''being'', ''have'', ''has'', ''had'',
      ''having'', ''do'', ''does'', ''did'', ''doing'', ''a'', ''an'', ''the'', ''and'', ''but'', ''if'',
      ''or'', ''because'', ''as'', ''until'', ''while'', ''of'', ''at'', ''by'', ''for'', ''with'',
      ''about'', ''against'', ''between'', ''into'', ''through'', ''during'', ''before'', ''after'',
      ''above'', ''below'', ''to'', ''from'', ''up'', ''down'', ''in'', ''out'', ''on'', ''off'', ''over'',
      ''under'', ''again'', ''further'', ''then'', ''once'', ''here'', ''there'', ''when'', ''where'',
      ''why'', ''how'', ''all'', ''any'', ''both'', ''each'', ''few'', ''more'', ''most'', ''other'',
      ''some'', ''such'', ''no'', ''nor'', ''not'', ''only'', ''own'', ''same'', ''so'', ''than'', ''too'',
      ''very'', ''s'', ''t'', ''can'', ''will'', ''just'', ''don'', ''should'', ''now'', ''d'', ''ll'',
      ''m'', ''o'', ''re'', ''ve'', ''y'', ''ain'', ''aren'', ''couldn'', ''didn'', ''doesn'', ''hadn'',
      ''hasn'', ''haven'', ''isn'', ''ma'', ''mightn'', ''mustn'', ''needn'', ''shan'', ''shouldn'',
      ''wasn'', ''weren'', ''won'', ''wouldn'']"

definition example_nltk :: nltk where
  "example_nltk = \<lparr> sent_tokenize = split_sentences [], word_tokenize = split_words [],
                     STOP_WORDS = set english_stopwords \<rparr>"

text \<open>The example text of the specification.\<close>

definition cats :: string where
  "cats = ''Cats are mammals. Dogs are mammals too. Cats and dogs are popular pets. Both need regular exercise.''"

text \<open>Five sentences of stopwords, and five sentences with words that count.\<close>

definition stopword_text :: string where
  "stopword_text = ''It is. He was. She did. We are. They were.''"


text \<open>The same text in two paragraphs and with runs of spaces, and a summary of three sentences.\<close>

definition two_paragraphs :: string where
  "two_paragraphs = ''Cats are mammals.  Dogs are mammals too.'' @ [CHR 0x0A, CHR 0x0A] @
     ''Cats and dogs are popular   pets. Both need regular exercise.'' @ [CHR 0x0A]"

definition three_sentences :: string where
  "three_sentences = ''Cats are mammals. Dogs are mammals too. Cats and dogs are popular pets.''"

section \<open>Properties of the string operations\<close>

lemma isspace_space: "isspace_chr (CHR '' '')"
  by (simp add: isspace_chr_def)

lemma isspace_newline: "isspace_chr (CHR 0x0A)"
  by (simp add: isspace_chr_def)

text \<open>\<open>not s.strip()\<close> holds exactly for the strings made of whitespace only.\<close>

lemma strip_Nil_iff: "strip s = [] \<longleftrightarrow> (\<forall>c\<in>set s. isspace_chr c)"
proof
  assume "strip s = []"
  then have a: "\<forall>c\<in>set (dropWhile isspace_chr s). isspace_chr c"
    by (simp add: strip_def dropWhile_eq_Nil_conv)
  have "dropWhile isspace_chr s = []"
  proof (rule ccontr)
    assume n: "dropWhile isspace_chr s \<noteq> []"
    then have "\<not> isspace_chr (hd (dropWhile isspace_chr s))" by (rule hd_dropWhile)
    with a n show False by simp
  qed
  then show "\<forall>c\<in>set s. isspace_chr c" by (simp add: dropWhile_eq_Nil_conv)
next
  assume "\<forall>c\<in>set s. isspace_chr c"
  then have "dropWhile isspace_chr s = []" by (simp add: dropWhile_eq_Nil_conv)
  then show "strip s = []" by (simp only: strip_def rev.simps dropWhile.simps)
qed


lemma filter_dropWhile_nonspace:
  "filter (\<lambda>c. \<not> P c) (dropWhile P s) = filter (\<lambda>c. \<not> P c) s"
  by (induction s) auto

lemma filter_strip: "filter (\<lambda>c. \<not> isspace_chr c) (strip s) = filter (\<lambda>c. \<not> isspace_chr c) s"
  by (simp add: strip_def filter_dropWhile_nonspace flip: rev_filter)



lemma no_ws_run_append:
  "no_ws_run (xs @ ys) \<longleftrightarrow>
     no_ws_run xs \<and> no_ws_run ys \<and> (xs \<noteq> [] \<and> ys \<noteq> [] \<longrightarrow> \<not> (isspace_chr (last xs) \<and> isspace_chr (hd ys)))"
proof (induction xs rule: no_ws_run.induct)
  case 1 then show ?case by simp
next
  case (2 c) then show ?case by (cases ys) auto
next
  case (3 c d cs) then show ?case by auto
qed

lemma sub_ws_inv:
  "no_ws_run (sub_ws b s) \<and> (b \<longrightarrow> sub_ws b s = [] \<or> \<not> isspace_chr (hd (sub_ws b s)))
   \<and> (\<forall>c\<in>set (sub_ws b s). isspace_chr c \<longrightarrow> c = CHR '' '')"
proof (induction s arbitrary: b)
  case Nil then show ?case by simp
next
  case (Cons c cs)
  show ?case
  proof (cases "isspace_chr c")
    case True
    then show ?thesis using Cons[of True] 
      by (cases "sub_ws True cs") (auto simp: isspace_space)
  next
    case False
    then show ?thesis using Cons[of False]
      by (cases "sub_ws False cs") auto
  qed
qed

lemma strip_decomp:
  "\<exists>a b. s = a @ strip s @ b \<and> (\<forall>c\<in>set a. isspace_chr c) \<and> (\<forall>c\<in>set b. isspace_chr c)"
proof -
  let ?d = "dropWhile isspace_chr s"
  have 1: "s = takeWhile isspace_chr s @ ?d" by simp
  have 2: "rev ?d = takeWhile isspace_chr (rev ?d) @ dropWhile isspace_chr (rev ?d)" by simp
  have "rev (rev ?d) = rev (takeWhile isspace_chr (rev ?d) @ dropWhile isspace_chr (rev ?d))"
    by (simp only: takeWhile_dropWhile_id)
  then have 3: "?d = strip s @ rev (takeWhile isspace_chr (rev ?d))"
    by (simp only: rev_rev_ident rev_append strip_def)
  have "s = takeWhile isspace_chr s @ strip s @ rev (takeWhile isspace_chr (rev ?d))"
    using 1 3 by metis
  moreover have "\<forall>c\<in>set (takeWhile isspace_chr s). isspace_chr c" by (auto dest: set_takeWhileD)
  moreover have "\<forall>c\<in>set (rev (takeWhile isspace_chr (rev ?d))). isspace_chr c" by (auto dest: set_takeWhileD)
  ultimately show ?thesis by blast
qed

lemma strip_ends:
  assumes "strip s \<noteq> []"
  shows "\<not> isspace_chr (hd (strip s))" and "\<not> isspace_chr (last (strip s))"
proof -
  let ?d = "dropWhile isspace_chr s"
  have d: "?d \<noteq> []"
  proof
    assume "?d = []"
    then have "strip s = []" by (simp only: strip_def rev.simps dropWhile.simps)
    with assms show False by simp
  qed
  have r: "dropWhile isspace_chr (rev ?d) \<noteq> []" using assms by (simp add: strip_def)
  have "\<not> isspace_chr (hd (dropWhile isspace_chr (rev ?d)))" using r by (rule hd_dropWhile)
  then show "\<not> isspace_chr (last (strip s))" using r by (simp add: strip_def last_rev)
  have "\<not> isspace_chr (hd ?d)" using d by (rule hd_dropWhile)
  moreover have "hd (strip s) = hd ?d"
  proof -
    obtain x xs where x: "?d = x # xs" using d by (cases ?d) auto
    have nx: "\<not> isspace_chr x" using hd_dropWhile[OF d] x by simp
    have "dropWhile isspace_chr (rev xs @ [x]) = dropWhile isspace_chr (rev xs) @ [x] \<or> dropWhile isspace_chr (rev xs @ [x]) = [x]"
      using nx by (simp add: dropWhile_append)
    then show ?thesis using x by (auto simp: strip_def hd_append)
  qed
  ultimately show "\<not> isspace_chr (hd (strip s))" by simp
qed

lemma sub_ws_id:
  "no_ws_run s \<Longrightarrow> list_all (\<lambda>c. isspace_chr c \<longrightarrow> c = CHR '' '') s \<Longrightarrow>
   (b \<Longrightarrow> s = [] \<or> \<not> isspace_chr (hd s)) \<Longrightarrow> sub_ws b s = s"
proof (induction s arbitrary: b)
  case Nil
  then show ?case by simp
next
  case (Cons c cs)
  show ?case
  proof (cases "isspace_chr c")
    case True
    then have nb: "\<not> b" and c: "c = CHR '' ''" using Cons.prems by auto
    have "cs = [] \<or> \<not> isspace_chr (hd cs)"
      using Cons.prems(1) True by (cases cs) auto
    moreover have "no_ws_run cs" using Cons.prems(1) by (cases cs) auto
    ultimately have "sub_ws True cs = cs" using Cons.IH[of True] Cons.prems(2) by simp
    then show ?thesis using True nb c by simp
  next
    case False
    have "no_ws_run cs" using Cons.prems(1) by (cases cs) auto
    then have "sub_ws False cs = cs" using Cons.IH[of False] Cons.prems(2) by simp
    then show ?thesis using False by simp
  qed
qed

lemma strip_id:
  assumes "s = [] \<or> (\<not> isspace_chr (hd s) \<and> \<not> isspace_chr (last s))"
  shows "strip s = s"
proof (cases "s = []")
  case True
  then show ?thesis by (simp add: strip_def)
next
  case False
  then have h: "\<not> isspace_chr (hd s)" and l: "\<not> isspace_chr (last s)" using assms by auto
  have 1: "dropWhile isspace_chr s = s" using False h by (simp add: dropWhile_eq_self_iff)
  have 2: "dropWhile isspace_chr (rev s) = rev s"
    using False l by (simp add: dropWhile_eq_self_iff hd_rev)
  show ?thesis by (simp add: strip_def 1 2)
qed

lemma clean_text_id: "single_spaced s \<Longrightarrow> clean_text s = s"
  by (auto simp: single_spaced_def clean_text_def sub_ws_id strip_id)

lemma no_ws_run_appendD1: "no_ws_run (xs @ ys) \<Longrightarrow> no_ws_run xs"
  by (simp add: no_ws_run_append)

lemma no_ws_run_appendD2: "no_ws_run (xs @ ys) \<Longrightarrow> no_ws_run ys"
  by (simp add: no_ws_run_append)

lemma single_spaced_clean_text: "single_spaced (clean_text t)"
proof -
  let ?u = "sub_ws False t"
  obtain a b where d: "?u = a @ strip ?u @ b" using strip_decomp by blast
  have "no_ws_run ?u" using sub_ws_inv by blast
  then have 1: "no_ws_run (strip ?u)"
    using d no_ws_run_appendD1 no_ws_run_appendD2 by metis
  have "\<forall>c\<in>set ?u. isspace_chr c \<longrightarrow> c = CHR '' ''" using sub_ws_inv by blast
  moreover have "set (strip ?u) \<subseteq> set ?u" using d by (metis Un_upper1 Un_upper2 set_append subset_trans)
  ultimately have 2: "list_all (\<lambda>c. isspace_chr c \<longrightarrow> c = CHR '' '') (strip ?u)"
    by (auto simp: list_all_iff)
  show ?thesis unfolding single_spaced_def clean_text_def
    using 1 2 strip_ends[of ?u] by blast
qed

section \<open>Properties of the double arithmetic\<close>


lemma round_half_even_nonneg: "0 \<le> q \<Longrightarrow> 0 \<le> round_half_even q"
  unfolding round_half_even_def Let_def by auto


lemma ulp_pos: "0 < ulp x"
  by (simp add: ulp_def)




lemma round_double_nonneg: "0 \<le> x \<Longrightarrow> 0 \<le> round_double x"
  using ulp_pos[of x] by (auto simp: round_double_def intro!: mult_nonneg_nonneg round_half_even_nonneg)


lemma int_times_float_nonneg: "0 \<le> r \<Longrightarrow> 0 \<le> int_times_float n r"
  unfolding int_times_float_def by (intro round_double_nonneg mult_nonneg_nonneg) simp_all

lemma double_tenth: "round_double (1 / 10) = 3602879701896397 / 2 ^ 55"
  by code_simp

lemma double_nine_tenths: "round_double (9 / 10) = 8106479329266893 / 2 ^ 53"
  by code_simp




text \<open>The clamped ratio.\<close>

lemma clamp_ratio_range:
  "round_double 0.1 \<le> clamp_ratio x \<and> clamp_ratio x \<le> round_double 0.9"
  by (cases x) (simp_all add: clamp_ratio_def double_tenth double_nine_tenths)

lemma clamp_ratio_bounds: "1 / 10 \<le> clamp_ratio x \<and> clamp_ratio x \<le> 91 / 100"
  using clamp_ratio_range[of x] by (simp add: double_tenth double_nine_tenths)


text \<open>The number of sentences to select.\<close>

lemma select_n_floor:
  "0 \<le> r \<Longrightarrow> select_n xs r = nat (max 1 \<lfloor>int_times_float (length xs) r\<rfloor>)"
  by (simp add: select_n_def py_int_def int_times_float_nonneg)

lemma select_n_pos: "1 \<le> select_n xs r"
proof -
  have "1 \<le> max 1 (py_int (int_times_float (length xs) r))" by simp
  then show ?thesis unfolding select_n_def by linarith
qed


section \<open>Frequencies and scores\<close>


















lemma map_of_incr:
  "map_of (incr freq w) = (map_of freq)(w \<mapsto> (case map_of freq w of None \<Rightarrow> 0 | Some c \<Rightarrow> c) + 1)"
  by (simp add: incr_def update_conv')

lemma freq_fold_map_of:
  "map_of (fold (\<lambda>w freq. if P w then incr freq w else freq) ws acc) w =
     (if P w \<and> w \<in> set ws
      then Some ((case map_of acc w of None \<Rightarrow> 0 | Some c \<Rightarrow> c) + count_list ws w)
      else map_of acc w)"
proof (induction ws arbitrary: acc)
  case Nil
  then show ?case by simp
next
  case (Cons x xs)
  show ?case
  proof (cases "P x")
    case True
    then show ?thesis
      by (auto simp: Cons.IH map_of_incr count_list_0_iff split: option.splits)
  next
    case False
    then show ?thesis by (auto simp: Cons.IH)
  qed
qed

lemma freq_fold_distinct:
  "distinct (map fst acc) \<Longrightarrow>
   distinct (map fst (fold (\<lambda>w freq. if P w then incr freq w else freq) ws acc))"
  by (induction ws arbitrary: acc) (auto simp: incr_def distinct_update)

lemma word_freq_distinct: "distinct (map fst (word_freq env words))"
  unfolding word_freq_def by (rule freq_fold_distinct) simp

lemma count_list_filter:
  "count_list (filter P xs) x = (if P x then count_list xs x else 0)"
  by (induction xs) auto

lemma word_freq_map_of:
  "map_of (word_freq env words) w =
     (if w \<in> set (counted_words env words) then Some (count_list (counted_words env words) w)
      else None)"
  unfolding word_freq_def counted_words_def
  by (simp add: freq_fold_map_of count_list_filter)

lemma word_freq_values:
  "set (map snd (word_freq env words)) =
     set (map (count_list (counted_words env words)) (counted_words env words))"
proof -
  let ?F = "word_freq env words" and ?C = "counted_words env words"
  have "(w, c) \<in> set ?F \<longleftrightarrow> w \<in> set ?C \<and> c = count_list ?C w" for w c
    using map_of_eq_Some_iff[OF word_freq_distinct, of env words w c]
    by (auto simp: word_freq_map_of split: if_splits)
  then show ?thesis by (auto simp: image_iff) force
qed




text \<open>
  The table of counts holds no zero: on a table that is not empty \<open>max\<close> returns a
  positive count, so that neither \<open>max\<close> nor the division by it raises.
\<close>

lemma word_freq_max:
  assumes "word_freq env words \<noteq> []"
  shows "\<exists>m. py_max (map snd (word_freq env words)) = Inr m \<and> m \<noteq> 0"
proof -
  let ?F = "word_freq env words" and ?C = "counted_words env words"
  have ne: "set (map snd ?F) \<noteq> {}" using assms by simp
  have "Max (set (map snd ?F)) \<in> set (map snd ?F)" using ne by (intro Max_in) simp_all
  then have "Max (set (map snd ?F)) \<in> set (map (count_list ?C) ?C)"
    by (simp only: word_freq_values)
  then obtain w where w: "w \<in> set ?C" and m: "Max (set (map snd ?F)) = count_list ?C w"
    by auto
  have "count_list ?C w \<noteq> 0" using w by (simp add: count_list_0_iff)
  then have "Max (set (map snd ?F)) \<noteq> 0" using m by simp
  moreover have "py_max (map snd ?F) = Inr (Max (set (map snd ?F)))"
    using assms by (simp add: py_max_def)
  ultimately show ?thesis by blast
qed






section \<open>The summarizer\<close>

lemma summarize_text_blank:
  "strip text = [] \<Longrightarrow> summarize_text env text ratio = Inr []"
  by (simp add: summarize_text_def)

lemma summarize_text_numeric:
  assumes "strip text \<noteq> []" and "py_float ratio = Inr r"
  shows "summarize_text env text ratio =
    Inr (if length (sent_tokenize env (clean_text text)) \<le> 1 then clean_text text
         else if word_freq env (word_tokenize env (lower (clean_text text))) = []
              then join (take (select_n (sent_tokenize env (clean_text text)) (clamp_ratio r))
                              (sent_tokenize env (clean_text text)))
              else join (summary_sentences env
                          (word_freq env (word_tokenize env (lower (clean_text text))))
                          (sent_tokenize env (clean_text text)) (clamp_ratio r)))"
proof -
  let ?F = "word_freq env (word_tokenize env (lower (clean_text text)))"
  have t: "text \<noteq> []" using assms(1) by (auto simp: strip_def)
  have m: "(case py_max (map snd ?F) of
              Inl e \<Rightarrow> Inl e
            | Inr maxf \<Rightarrow> if maxf = 0 then Inl ZeroDivisionError else Inr out) = Inr out"
    if "?F \<noteq> []" for out :: string
    using word_freq_max[OF that] by auto
  show ?thesis
  proof (cases "?F = []")
    case True
    then show ?thesis using assms t by (simp add: summarize_text_def Let_def)
  next
    case False
    then show ?thesis using assms t m[OF False] by (simp add: summarize_text_def Let_def)
  qed
qed

lemma summarize_text_float:
  assumes "strip text \<noteq> []"
  shows "summarize_text env text (PyFloat r) =
    Inr (if length (sent_tokenize env (clean_text text)) \<le> 1 then clean_text text
         else if word_freq env (word_tokenize env (lower (clean_text text))) = []
              then join (take (select_n (sent_tokenize env (clean_text text)) (clamp_ratio r))
                              (sent_tokenize env (clean_text text)))
              else join (summary_sentences env
                          (word_freq env (word_tokenize env (lower (clean_text text))))
                          (sent_tokenize env (clean_text text)) (clamp_ratio r)))"
  using assms by (rule summarize_text_numeric) simp

lemma subseq_take: "subseq (take n xs) xs"
proof -
  have "subseq (take n xs) (take n xs @ drop n xs)" by (rule subseq_rev_drop_many) simp
  then show ?thesis by simp
qed

lemma summary_sentences_subseq: "subseq (summary_sentences env freq S r) S"
  by (simp add: summary_sentences_def Let_def subseq_take)

lemma summary_sentences_nonempty: "S \<noteq> [] \<Longrightarrow> summary_sentences env freq S r \<noteq> []"
  using select_n_pos[of S r] by (auto simp: summary_sentences_def Let_def)

text \<open>
  C3. For every text and ratio the summary keeps the order of the source: either the
  text has at most one sentence and is returned whole (after whitespace cleaning), or
  the summary is the join with single spaces of a subsequence of the sentences of the
  text, that is, of sentences in their original relative order.
\<close>

theorem summary_in_document_order:
  "(length (sent_tokenize env (clean_text text)) \<le> 1
      \<and> summarize_text env text (PyFloat r) = Inr (clean_text text))
   \<or> (\<exists>sel. subseq sel (sent_tokenize env (clean_text text))
          \<and> summarize_text env text (PyFloat r) = Inr (join sel))"
proof (cases "strip text = []")
  case True
  have "subseq [] (sent_tokenize env (clean_text text))" by simp
  moreover have "summarize_text env text (PyFloat r) = Inr (join [])"
    using True by (simp add: summarize_text_blank) 
  ultimately show ?thesis by blast
next
  case False
  note f = summarize_text_float[OF False, of env r]
  show ?thesis
  proof (cases "length (sent_tokenize env (clean_text text)) \<le> 1")
    case True
    then show ?thesis using f by simp
  next
    case False
    show ?thesis
    proof (cases "word_freq env (word_tokenize env (lower (clean_text text))) = []")
      case True
      then have "summarize_text env text (PyFloat r) =
          Inr (join (take (select_n (sent_tokenize env (clean_text text)) (clamp_ratio r))
                          (sent_tokenize env (clean_text text))))"
        using f False by simp
      then show ?thesis using subseq_take by blast
    next
      case nonempty: False
      then have "summarize_text env text (PyFloat r) =
          Inr (join (summary_sentences env
                      (word_freq env (word_tokenize env (lower (clean_text text))))
                      (sent_tokenize env (clean_text text)) (clamp_ratio r)))"
        using f False by simp
      then show ?thesis using summary_sentences_subseq by blast
    qed
  qed
qed

text \<open>
  An example where the order of the scores differs from the order of the text: the third
  sentence has the best score and still comes last in the summary.
\<close>

lemma document_order_example:
  "summarize_text example_nltk
     ''Dogs are mammals too. Both need regular exercise. Cats are mammals.'' (literal 0.9) =
   Inr ''Dogs are mammals too. Cats are mammals.''
   \<and> map fst (ranked (score_sentences example_nltk
         (normalize_freq (word_freq example_nltk (word_tokenize example_nltk
            (lower ''Dogs are mammals too. Both need regular exercise. Cats are mammals.''))))
         [''Dogs are mammals too.'', ''Both need regular exercise.'', ''Cats are mammals.''])) =
       [''Cats are mammals.'', ''Dogs are mammals too.'', ''Both need regular exercise.'']"
  by code_simp




lemma sep_join_nonempty: "xs \<noteq> [] \<Longrightarrow> hd xs \<noteq> [] \<Longrightarrow> sep_join sep xs \<noteq> []"
  by (induction sep xs rule: sep_join.induct) auto

lemma set_summary_sentences: "set (summary_sentences env freq S r) \<subseteq> set S"
  by (auto simp: summary_sentences_def Let_def dest: in_set_takeD)
















text \<open>
  The claim C6 as stated fails: four sentences of stopwords at ratio 0.3 give
  \<open>int(1.2) = 1\<close> sentence, where the ceiling would give two.
\<close>

lemma stopword_text_facts:
  "word_freq example_nltk
     (word_tokenize example_nltk (lower (clean_text ''It is. He was. She did. We are.''))) = []
   \<and> sent_tokenize example_nltk (clean_text ''It is. He was. She did. We are.'') =
       [''It is.'', ''He was.'', ''She did.'', ''We are.'']
   \<and> strip ''It is. He was. She did. We are.'' \<noteq> []"
  by code_simp

lemma stopword_text_summary:
  "summarize_text example_nltk ''It is. He was. She did. We are.'' (literal 0.3) = Inr ''It is.''"
  by code_simp

lemma stopword_text_ceiling:
  "join (take (nat (max 1 \<lceil>int_times_float (length [''It is.'', ''He was.'', ''She did.'', ''We are.''])
                                 (clamp_ratio (Finite (round_double 0.3)))\<rceil>))
              [''It is.'', ''He was.'', ''She did.'', ''We are.'']) = ''It is. He was.''"
  by code_simp

theorem freq_empty_ceiling_counterexample:
  "word_freq example_nltk
     (word_tokenize example_nltk (lower (clean_text ''It is. He was. She did. We are.''))) = []
   \<and> sent_tokenize example_nltk (clean_text ''It is. He was. She did. We are.'') =
       [''It is.'', ''He was.'', ''She did.'', ''We are.'']
   \<and> summarize_text example_nltk ''It is. He was. She did. We are.'' (literal 0.3) = Inr ''It is.''
   \<and> join (take (nat (max 1 \<lceil>int_times_float (length [''It is.'', ''He was.'', ''She did.'', ''We are.''])
                                     (clamp_ratio (Finite (round_double 0.3)))\<rceil>))
                  [''It is.'', ''He was.'', ''She did.'', ''We are.'']) = ''It is. He was.''"
  using stopword_text_facts stopword_text_summary stopword_text_ceiling by blast

text \<open>
  The product \<open>len(sentences) * ratio\<close> is a double: five times the double 0.6 is below
  3 as a real number and rounds to the double 3.0, so that five sentences at ratio 0.6
  give three sentences and not two; fifty sentences at ratio 0.58 give 28.
\<close>

lemma double_product_examples:
  "\<lfloor>5 * round_double 0.6\<rfloor> = 2
   \<and> select_n [''a'', ''b'', ''c'', ''d'', ''e''] (clamp_ratio (Finite (round_double 0.6))) = 3
   \<and> select_n (replicate 50 ''a'') (clamp_ratio (Finite (round_double 0.58))) = 28"
  by code_simp

text \<open>
  C6, as the code has it. When the frequency table is empty and the text has two or more
  sentences, \<open>summarize_text\<close> returns the first \<open>max(1, int(sentenceCount * ratio))\<close>
  sentences in document order: the ratio is the clamped one, the product is the double
  that Python computes, and \<open>int\<close> rounds it down.
\<close>

theorem freq_empty_fallback:
  assumes "strip text \<noteq> []"
    and "2 \<le> length (sent_tokenize env (clean_text text))"
    and "word_freq env (word_tokenize env (lower (clean_text text))) = []"
  shows "summarize_text env text (PyFloat r) =
     Inr (join (take (nat (max 1 \<lfloor>int_times_float (length (sent_tokenize env (clean_text text)))
                                       (clamp_ratio r)\<rfloor>))
                     (sent_tokenize env (clean_text text))))"
proof -
  have "0 \<le> clamp_ratio r" using clamp_ratio_bounds[of r] by simp
  then have "select_n (sent_tokenize env (clean_text text)) (clamp_ratio r) =
     nat (max 1 \<lfloor>int_times_float (length (sent_tokenize env (clean_text text))) (clamp_ratio r)\<rfloor>)"
    by (rule select_n_floor)
  then show ?thesis using assms by (simp add: summarize_text_float)
qed

lemma stopword_five_facts:
  "word_freq example_nltk (word_tokenize example_nltk (lower (clean_text stopword_text))) = []
   \<and> sent_tokenize example_nltk (clean_text stopword_text) =
       [''It is.'', ''He was.'', ''She did.'', ''We are.'', ''They were.'']
   \<and> strip stopword_text \<noteq> []"
  by code_simp

lemma stopword_five_count:
  "join (take (nat (max 1 \<lfloor>int_times_float
                     (length [''It is.'', ''He was.'', ''She did.'', ''We are.'', ''They were.''])
                     (clamp_ratio (Finite (round_double 0.6)))\<rfloor>))
              [''It is.'', ''He was.'', ''She did.'', ''We are.'', ''They were.'']) =
   ''It is. He was. She did.''"
  by code_simp

theorem freq_empty_fallback_witness:
  "word_freq example_nltk (word_tokenize example_nltk (lower (clean_text stopword_text))) = []
   \<and> length (sent_tokenize example_nltk (clean_text stopword_text)) = 5
   \<and> summarize_text example_nltk stopword_text (literal 0.6) = Inr ''It is. He was. She did.''"
proof -
  have 1: "strip stopword_text \<noteq> []" using stopword_five_facts by blast
  have s: "sent_tokenize example_nltk (clean_text stopword_text) =
       [''It is.'', ''He was.'', ''She did.'', ''We are.'', ''They were.'']"
    using stopword_five_facts by blast
  have l: "length (sent_tokenize example_nltk (clean_text stopword_text)) = 5"
    by (simp only: s) simp
  have 2: "2 \<le> length (sent_tokenize example_nltk (clean_text stopword_text))"
    using l by simp
  have 3: "word_freq example_nltk
     (word_tokenize example_nltk (lower (clean_text stopword_text))) = []"
    using stopword_five_facts by blast
  have "summarize_text example_nltk stopword_text (literal 0.6) =
     Inr (join (take (nat (max 1 \<lfloor>int_times_float
                       (length (sent_tokenize example_nltk (clean_text stopword_text)))
                       (clamp_ratio (Finite (round_double 0.6)))\<rfloor>))
                     (sent_tokenize example_nltk (clean_text stopword_text))))"
    using 1 2 3 by (rule freq_empty_fallback)
  then have 4: "summarize_text example_nltk stopword_text (literal 0.6) =
      Inr ''It is. He was. She did.''"
    by (simp only: s stopword_five_count)
  show ?thesis by (intro conjI) (rule 3 l 4)+
qed

section \<open>The number of sentences of a summary\<close>











section \<open>The shape of a summary\<close>

lemma single_spaced_Nil: "single_spaced []"
  by (simp add: single_spaced_def)

lemma single_spaced_sublist:
  assumes t: "single_spaced t" and sub: "sublist s t"
    and ends: "\<not> isspace_chr (hd s)" "\<not> isspace_chr (last s)"
  shows "single_spaced s"
proof -
  obtain a b where d: "t = a @ s @ b" using sub by (auto simp: sublist_def)
  have "no_ws_run t" using t by (simp add: single_spaced_def)
  then have 1: "no_ws_run s" using d by (simp add: no_ws_run_append)
  have "list_all (\<lambda>c. isspace_chr c \<longrightarrow> c = CHR '' '') t" using t by (simp add: single_spaced_def)
  then have 2: "list_all (\<lambda>c. isspace_chr c \<longrightarrow> c = CHR '' '') s" using d by simp
  show ?thesis using 1 2 ends by (simp add: single_spaced_def)
qed

lemma sep_join_hd: "x \<noteq> [] \<Longrightarrow> hd (sep_join sep (x # xs)) = hd x"
  by (cases xs) auto

lemma join_single_spaced:
  "xs \<noteq> [] \<Longrightarrow> \<forall>x\<in>set xs. x \<noteq> [] \<and> single_spaced x \<Longrightarrow>
   join xs \<noteq> [] \<and> single_spaced (join xs)"
proof (induction "'' ''" xs rule: sep_join.induct)
  case 1
  then show ?case by simp
next
  case (2 x)
  then show ?case by simp
next
  case (3 x y ys)
  let ?r = "join (y # ys)"
  have r: "?r \<noteq> []" "single_spaced ?r" using 3 by auto
  have x: "x \<noteq> []" "single_spaced x" using 3(3) by auto
  have y: "y \<noteq> []" using 3(3) by auto
  have hr: "\<not> isspace_chr (hd ?r)" using r by (simp add: single_spaced_def)
  have lr: "\<not> isspace_chr (last ?r)" using r by (simp add: single_spaced_def)
  have hx: "\<not> isspace_chr (hd x)" and lx: "\<not> isspace_chr (last x)"
    using x by (simp_all add: single_spaced_def)
  have e: "join (x # y # ys) = x @ CHR '' '' # ?r" by simp
  have n1: "no_ws_run (CHR '' '' # ?r)"
    using r hr by (cases ?r) (auto simp: single_spaced_def)
  have n: "no_ws_run (x @ CHR '' '' # ?r)"
    using x n1 lx by (simp add: no_ws_run_append single_spaced_def)
  have a: "list_all (\<lambda>c. isspace_chr c \<longrightarrow> c = CHR '' '') (x @ CHR '' '' # ?r)"
    using x r by (simp add: single_spaced_def)
  have h: "hd (x @ CHR '' '' # ?r) = hd x" using x by simp
  have l: "last (x @ CHR '' '' # ?r) = last ?r" using r by simp
  show ?case unfolding e using n a h l hx lr x by (simp add: single_spaced_def)
qed

lemma single_spaced_no_newline: "single_spaced s \<Longrightarrow> CHR 0x0A \<notin> set s"
proof
  assume s: "single_spaced s" and m: "CHR 0x0A \<in> set s"
  have "list_all (\<lambda>c. isspace_chr c \<longrightarrow> c = CHR '' '') s" using s by (simp add: single_spaced_def)
  then have "isspace_chr (CHR 0x0A) \<longrightarrow> CHR 0x0A = CHR '' ''" using m by (auto simp: list_all_iff)
  then show False by (simp add: isspace_newline)
qed

lemma split_blank_no_newline:
  "CHR 0x0A \<notin> set s \<Longrightarrow> split_blank acc s = [rev acc @ s]"
  by (induction acc s rule: split_blank.induct) auto

lemma paragraph_count_single_spaced:
  assumes "single_spaced s" and "s \<noteq> []"
  shows "paragraph_count s = 1"
proof -
  have "\<not> isspace_chr (hd s)" using assms by (simp add: single_spaced_def)
  moreover have "hd s \<in> set s" using assms(2) by simp
  ultimately have "strip s \<noteq> []" by (auto simp: strip_Nil_iff)
  moreover have "split_blank [] s = [s]"
    using split_blank_no_newline[OF single_spaced_no_newline[OF assms(1)], of "[]"] by simp
  ultimately show ?thesis by (simp add: paragraph_count_def)
qed

lemma summary_single_spaced:
  assumes spans: "\<forall>s\<in>set (sent_tokenize env (clean_text text)).
            s \<noteq> [] \<and> sublist s (clean_text text) \<and> \<not> isspace_chr (hd s) \<and> \<not> isspace_chr (last s)"
  shows "\<exists>out. summarize_text env text (PyFloat r) = Inr out \<and> single_spaced out"
proof (cases "strip text = []")
  case True
  then show ?thesis by (simp add: summarize_text_blank single_spaced_Nil)
next
  case nb: False
  let ?T = "clean_text text"
  let ?S = "sent_tokenize env ?T"
  let ?F = "word_freq env (word_tokenize env (lower ?T))"
  note f = summarize_text_float[OF nb, of env r]
  have each: "\<forall>s\<in>set ?S. s \<noteq> [] \<and> single_spaced s"
    using spans single_spaced_sublist[OF single_spaced_clean_text] by blast
  have j: "single_spaced (join sel)" if "sel \<noteq> []" "set sel \<subseteq> set ?S" for sel
    using join_single_spaced[OF that(1)] each that(2) by blast
  show ?thesis
  proof (cases "length ?S \<le> 1")
    case True
    then show ?thesis using f single_spaced_clean_text by simp
  next
    case False
    then have S: "?S \<noteq> []" by auto
    show ?thesis
    proof (cases "?F = []")
      case True
      have "take (select_n ?S (clamp_ratio r)) ?S \<noteq> []"
        using S select_n_pos[of ?S "clamp_ratio r"] by (cases ?S) auto
      then have "single_spaced (join (take (select_n ?S (clamp_ratio r)) ?S))"
        by (rule j) (rule set_take_subset)
      then show ?thesis using f False True by simp
    next
      case nonempty: False
      have "single_spaced (join (summary_sentences env ?F ?S (clamp_ratio r)))"
        using summary_sentences_nonempty[OF S] set_summary_sentences by (rule j)
      then show ?thesis using f False nonempty by simp
    qed
  qed
qed

text \<open>
  C10. NLTK returns each sentence as a span of the text it is given that neither starts
  nor ends with whitespace. For a tokenizer that does so on the cleaned text: the cleaned
  text is single-spaced (all whitespace of the input, paragraph breaks included, is
  collapsed to single spaces before the segmentation), and the string returned by
  \<open>summarize_text\<close> has no newline and no two whitespace characters in a row, so that,
  when it is not empty, it counts as exactly one paragraph for \<open>get_summary_stats\<close>.
\<close>

theorem summary_is_single_spaced:
  assumes spans: "\<forall>s\<in>set (sent_tokenize env (clean_text text)).
            s \<noteq> [] \<and> sublist s (clean_text text) \<and> \<not> isspace_chr (hd s) \<and> \<not> isspace_chr (last s)"
  shows "single_spaced (clean_text text)
    \<and> (\<exists>out. summarize_text env text (PyFloat r) = Inr out
          \<and> CHR 0x0A \<notin> set out \<and> no_ws_run out
          \<and> (out \<noteq> [] \<longrightarrow> paragraph_count out = 1))"
proof -
  obtain out where o: "summarize_text env text (PyFloat r) = Inr out" and s: "single_spaced out"
    using summary_single_spaced[OF spans] by blast
  have 1: "CHR 0x0A \<notin> set out" using s by (rule single_spaced_no_newline)
  have 2: "no_ws_run out" using s by (simp add: single_spaced_def)
  have 3: "out \<noteq> [] \<longrightarrow> paragraph_count out = 1"
    using paragraph_count_single_spaced[OF s] by blast
  show ?thesis using single_spaced_clean_text o 1 2 3 by blast
qed

lemma two_paragraphs_clean: "clean_text two_paragraphs = cats"
  by code_simp

lemma cats_spans:
  "list_all (\<lambda>s. s \<noteq> [] \<and> sublist s cats \<and> \<not> isspace_chr (hd s) \<and> \<not> isspace_chr (last s))
     (sent_tokenize example_nltk cats)"
  by code_simp

lemma two_paragraphs_summary:
  "summarize_text example_nltk two_paragraphs (literal 0.5) = Inr ''Cats are mammals. Dogs are mammals too.''"
  by code_simp

lemma two_paragraphs_count:
  "paragraph_count two_paragraphs = 2 \<and> paragraph_count ''Cats are mammals. Dogs are mammals too.'' = 1"
  by code_simp

theorem summary_is_single_spaced_witness:
  "list_all (\<lambda>s. s \<noteq> [] \<and> sublist s (clean_text two_paragraphs)
                 \<and> \<not> isspace_chr (hd s) \<and> \<not> isspace_chr (last s))
     (sent_tokenize example_nltk (clean_text two_paragraphs))
   \<and> paragraph_count two_paragraphs = 2
   \<and> summarize_text example_nltk two_paragraphs (literal 0.5) =
       Inr ''Cats are mammals. Dogs are mammals too.''
   \<and> CHR 0x0A \<notin> set ''Cats are mammals. Dogs are mammals too.''
   \<and> no_ws_run ''Cats are mammals. Dogs are mammals too.''
   \<and> paragraph_count ''Cats are mammals. Dogs are mammals too.'' = 1"
proof -
  let ?out = "''Cats are mammals. Dogs are mammals too.''"
  have l: "list_all (\<lambda>s. s \<noteq> [] \<and> sublist s (clean_text two_paragraphs)
                 \<and> \<not> isspace_chr (hd s) \<and> \<not> isspace_chr (last s))
     (sent_tokenize example_nltk (clean_text two_paragraphs))"
    by (simp only: two_paragraphs_clean cats_spans)
  then have spans: "\<forall>s\<in>set (sent_tokenize example_nltk (clean_text two_paragraphs)).
      s \<noteq> [] \<and> sublist s (clean_text two_paragraphs)
      \<and> \<not> isspace_chr (hd s) \<and> \<not> isspace_chr (last s)"
    by (simp only: list_all_iff)
  obtain out where o: "summarize_text example_nltk two_paragraphs (literal 0.5) = Inr out"
    and 1: "CHR 0x0A \<notin> set out" and 2: "no_ws_run out"
    and 3: "out \<noteq> [] \<longrightarrow> paragraph_count out = 1"
    using summary_is_single_spaced[OF spans, of "Finite (round_double 0.5)"] by blast
  have e: "out = ?out" using o by (simp only: two_paragraphs_summary sum.inject)
  have p: "paragraph_count two_paragraphs = 2" using two_paragraphs_count by blast
  have q: "paragraph_count ?out = 1" using two_paragraphs_count by blast
  show ?thesis
    using 1 2 unfolding e by (intro conjI) (rule l p two_paragraphs_summary q | assumption)+
qed

section \<open>The intent classifier\<close>

lemma scan_pats_eq:
  "scan_pats tokens intent pats =
     (if list_ex (\<lambda>pat. set pat \<subseteq> set tokens) pats then Some intent else None)"
  by (induction pats) (auto simp: list_all_iff)

lemma scan_intents_find:
  "scan_intents tokens ps =
     (case find (\<lambda>(intent, pats). list_ex (\<lambda>pat. set pat \<subseteq> set tokens) pats) ps of
        Some (intent, pats) \<Rightarrow> intent
      | None \<Rightarrow> ''general'')"
  by (induction ps) (auto simp: scan_pats_eq)

lemma scan_intents_range: "scan_intents tokens ps \<in> insert ''general'' (fst ` set ps)"
proof (induction ps)
  case Nil
  then show ?case by simp
next
  case (Cons p ps)
  obtain intent pats where p: "p = (intent, pats)" by (cases p)
  show ?case
  proof (cases "scan_pats tokens intent pats")
    case None
    then show ?thesis using Cons p by auto
  next
    case (Some found)
    then have "found = intent" by (simp add: scan_pats_eq split: if_splits)
    then show ?thesis using Some p by simp
  qed
qed

lemma detect_intent_key_points: "detect_intent ''What are the key points?'' = ''key_points''"
  by code_simp

lemma detect_intent_shorter_please: "detect_intent ''make it shorter please'' = ''make_shorter''"
  by code_simp

lemma detect_intent_banana: "detect_intent ''banana'' = ''general''"
  by code_simp

lemma detect_intent_shorter: "detect_intent ''make it shorter'' = ''make_shorter''"
  by code_simp

text \<open>
  C7. \<open>detect_intent\<close> returns one of the six intents on every question; it is the
  classifier of the specification: the intents are tried in the order what_about,
  key_points, make_shorter, explain, summary_length, a pattern matches when all its
  tokens are among the tokens of the normalised question, the first intent with a
  matching pattern wins and no match gives general. The three examples of the
  specification come out as stated.
\<close>

theorem detect_intent_classifies:
  "detect_intent q \<in> {''what_about'', ''key_points'', ''make_shorter'', ''explain'',
                        ''summary_length'', ''general''}
   \<and> detect_intent q = classify_spec q
   \<and> map fst patterns =
       [''what_about'', ''key_points'', ''make_shorter'', ''explain'', ''summary_length'']
   \<and> detect_intent ''What are the key points?'' = ''key_points''
   \<and> detect_intent ''make it shorter please'' = ''make_shorter''
   \<and> detect_intent ''banana'' = ''general''"
proof -
  have p: "map fst patterns =
      [''what_about'', ''key_points'', ''make_shorter'', ''explain'', ''summary_length'']"
    by (simp add: patterns_def)
  have "detect_intent q \<in> insert ''general'' (fst ` set patterns)"
    unfolding detect_intent_def Let_def by (rule scan_intents_range)
  also have "fst ` set patterns = set (map fst patterns)" by simp
  finally have r: "detect_intent q \<in> {''what_about'', ''key_points'', ''make_shorter'',
      ''explain'', ''summary_length'', ''general''}"
    unfolding p by auto
  have s: "detect_intent q = classify_spec q"
    unfolding detect_intent_def classify_spec_def Let_def by (rule scan_intents_find)
  show ?thesis
    using r s p detect_intent_key_points detect_intent_shorter_please detect_intent_banana
    by blast
qed

section \<open>The chat responder\<close>

text \<open>
  C8. When the summary is empty or consists of whitespace only, \<open>chat_with_summary\<close>
  returns the fixed "no summary yet" message for every question, the empty and the
  whitespace-only question included: the test of the summary comes first.
\<close>

theorem chat_empty_summary:
  "\<forall>c\<in>set summary. isspace_chr c \<Longrightarrow> chat_with_summary env q summary = no_summary_msg"
  by (simp add: chat_with_summary_def strip_Nil_iff)

theorem chat_empty_summary_witness:
  "list_all isspace_chr [CHR '' '', CHR 0x0A]
   \<and> chat_with_summary example_nltk [] [CHR '' '', CHR 0x0A] = no_summary_msg
   \<and> chat_with_summary example_nltk ''What is this about?'' [] = no_summary_msg"
proof -
  have h: "\<forall>c\<in>set [CHR '' '', CHR 0x0A]. isspace_chr c"
    by (simp add: isspace_chr_def)
  have e: "\<forall>c\<in>set ([]::string). isspace_chr c" by simp
  show ?thesis
    using h chat_empty_summary [OF h, of example_nltk "[]"]
      chat_empty_summary [OF e, of example_nltk "''What is this about?''"]
    by simp
qed

lemma shorter_question: "strip ''make it shorter'' \<noteq> []"
  by code_simp

lemma chat_make_shorter:
  assumes "strip summary \<noteq> []"
  shows "chat_with_summary env ''make it shorter'' summary =
           shorter_header @ make_shorter env summary (1 / 2)"
proof -
  have "summary \<noteq> []" using assms by (auto simp: strip_def)
  then show ?thesis
    using assms shorter_question
    by (simp add: chat_with_summary_def detect_intent_shorter Let_def)
qed

lemma make_shorter_selection:
  assumes nb: "strip summary \<noteq> []"
    and two: "2 \<le> length (sent_tokenize env (clean_text summary))"
    and ne: "[] \<notin> set (sent_tokenize env (clean_text summary))"
  shows "\<exists>sel. sel \<noteq> [] \<and> subseq sel (sent_tokenize env (clean_text summary))
               \<and> make_shorter env summary r = join sel"
proof -
  let ?S = "sent_tokenize env (clean_text summary)"
  let ?F = "word_freq env (word_tokenize env (lower (clean_text summary)))"
  have S: "?S \<noteq> []" using two by auto
  note f = summarize_text_float[OF nb, of env "Finite r"]
  have sel: "\<exists>sel. sel \<noteq> [] \<and> subseq sel ?S \<and> summarize_text env summary (PyFloat (Finite r)) = Inr (join sel)"
  proof (cases "?F = []")
    case True
    have "take (select_n ?S (clamp_ratio (Finite r))) ?S \<noteq> []"
      using S select_n_pos[of ?S "clamp_ratio (Finite r)"] by (cases ?S) auto
    moreover have "summarize_text env summary (PyFloat (Finite r)) =
        Inr (join (take (select_n ?S (clamp_ratio (Finite r))) ?S))"
      using f two True by simp
    ultimately show ?thesis using subseq_take by blast
  next
    case False
    have "summarize_text env summary (PyFloat (Finite r)) =
        Inr (join (summary_sentences env ?F ?S (clamp_ratio (Finite r))))"
      using f two False by simp
    then show ?thesis using summary_sentences_nonempty[OF S] summary_sentences_subseq by blast
  qed
  then obtain sel where s: "sel \<noteq> []" "subseq sel ?S"
    and e: "summarize_text env summary (PyFloat (Finite r)) = Inr (join sel)" by blast
  have "set sel \<subseteq> set ?S" using s(2) by (metis subseq_conv_nths set_nths_subset)
  moreover have "hd sel \<in> set sel" using s(1) by simp
  ultimately have "hd sel \<in> set ?S" by (rule subsetD)
  then have "hd sel \<noteq> []" using ne by auto
  then have "join sel \<noteq> []" using s(1) by (rule sep_join_nonempty[rotated])
  then have "make_shorter env summary r = join sel" by (simp add: make_shorter_def e)
  then show ?thesis using s by blast
qed

lemma single_spaced_same_sentences:
  "single_spaced summary \<Longrightarrow>
   sent_tokenize env (clean_text summary) = sent_tokenize env summary"
  by (simp add: clean_text_id)

text \<open>
  C9. For a summary that is not blank and has more than one sentence, the answer to
  "make it shorter" is the header of the shorter version followed by the join of a
  non-empty subsequence of the sentences of the summary, so it is made of at most as
  many sentences as the summary. The count of the sentences of the returned string by
  the tokenizer itself is bounded in the same way for a tokenizer that segments the
  cleaned summary as it segments the summary (a single-spaced summary is its own
  cleaned form), returns no empty sentence, and finds, behind the header, no more
  sentences in a join of sentences of the summary than were joined.
\<close>

theorem make_shorter_shrinks:
  assumes nb: "strip summary \<noteq> []"
    and ws: "sent_tokenize env (clean_text summary) = sent_tokenize env summary"
    and two: "2 \<le> length (sent_tokenize env summary)"
    and ne: "[] \<notin> set (sent_tokenize env summary)"
    and re: "\<forall>sel. sel \<noteq> [] \<and> subseq sel (sent_tokenize env summary) \<longrightarrow>
               length (sent_tokenize env (shorter_header @ join sel)) \<le> length sel"
  shows "(\<exists>sel. sel \<noteq> [] \<and> subseq sel (sent_tokenize env summary)
            \<and> chat_with_summary env ''make it shorter'' summary = shorter_header @ join sel)
     \<and> length (sent_tokenize env (chat_with_summary env ''make it shorter'' summary))
         \<le> length (sent_tokenize env summary)"
proof -
  obtain sel where s: "sel \<noteq> []" "subseq sel (sent_tokenize env summary)"
    and m: "make_shorter env summary (1 / 2) = join sel"
    using make_shorter_selection[OF nb, of env "1 / 2"] two ne unfolding ws by blast
  have c: "chat_with_summary env ''make it shorter'' summary = shorter_header @ join sel"
    using chat_make_shorter[OF nb, of env] m by simp
  have "length (sent_tokenize env (shorter_header @ join sel)) \<le> length sel"
    using re s by blast
  also have "length sel \<le> length (sent_tokenize env summary)"
    using s(2) by (rule list_emb_length)
  finally have "length (sent_tokenize env (chat_with_summary env ''make it shorter'' summary))
         \<le> length (sent_tokenize env summary)"
    unfolding c .
  then show ?thesis using s c by blast
qed

lemma three_chat:
  "chat_with_summary example_nltk ''make it shorter'' three_sentences =
     shorter_header @ ''Cats are mammals.''"
  by code_simp

lemma three_facts:
  "strip three_sentences \<noteq> []
   \<and> sent_tokenize example_nltk (clean_text three_sentences) = sent_tokenize example_nltk three_sentences
   \<and> sent_tokenize example_nltk three_sentences =
       [''Cats are mammals.'', ''Dogs are mammals too.'', ''Cats and dogs are popular pets.'']"
  by code_simp

lemma three_retokenized:
  "list_all (\<lambda>sel. sel = [] \<or> length (sent_tokenize example_nltk (shorter_header @ join sel)) \<le> length sel)
     (subseqs [''Cats are mammals.'', ''Dogs are mammals too.'', ''Cats and dogs are popular pets.''])"
  by code_simp

lemma three_chat_count:
  "length (sent_tokenize example_nltk (shorter_header @ ''Cats are mammals.'')) = 1"
  by code_simp

theorem make_shorter_shrinks_witness:
  "length (sent_tokenize example_nltk three_sentences) = 3
   \<and> chat_with_summary example_nltk ''make it shorter'' three_sentences =
       shorter_header @ ''Cats are mammals.''
   \<and> length (sent_tokenize example_nltk
               (chat_with_summary example_nltk ''make it shorter'' three_sentences)) \<le> 3"
proof -
  let ?S = "sent_tokenize example_nltk three_sentences"
  have nb: "strip three_sentences \<noteq> []" using three_facts by blast
  have ws: "sent_tokenize example_nltk (clean_text three_sentences) = ?S" using three_facts by blast
  have S: "?S = [''Cats are mammals.'', ''Dogs are mammals too.'', ''Cats and dogs are popular pets.'']"
    using three_facts by blast
  have l: "length ?S = 3" by (simp only: S) simp
  have two: "2 \<le> length ?S" using l by simp
  have ne: "[] \<notin> set ?S" by (simp only: S) simp
  have all: "\<forall>sel\<in>set (subseqs ?S).
      sel = [] \<or> length (sent_tokenize example_nltk (shorter_header @ join sel)) \<le> length sel"
    using three_retokenized by (simp only: S list_all_iff)
  have re: "\<forall>sel. sel \<noteq> [] \<and> subseq sel ?S \<longrightarrow>
               length (sent_tokenize example_nltk (shorter_header @ join sel)) \<le> length sel"
  proof (intro allI impI)
    fix sel
    assume a: "sel \<noteq> [] \<and> subseq sel ?S"
    then have "sel \<in> set (subseqs ?S)" by (simp only: in_set_subseqs)
    then have "sel = [] \<or>
        length (sent_tokenize example_nltk (shorter_header @ join sel)) \<le> length sel"
      using all by blast
    then show "length (sent_tokenize example_nltk (shorter_header @ join sel)) \<le> length sel"
      using a by blast
  qed
  have "length (sent_tokenize example_nltk
               (chat_with_summary example_nltk ''make it shorter'' three_sentences)) \<le> length ?S"
    using make_shorter_shrinks[OF nb ws two ne re] by blast
  then have 3: "length (sent_tokenize example_nltk
               (chat_with_summary example_nltk ''make it shorter'' three_sentences)) \<le> 3"
    by (simp only: l)
  show ?thesis by (intro conjI) (rule l three_chat 3)+
qed

end
